theory Spec2Isabelle
  imports Complex_Main "HOL-Library.Sublist"
begin

section \<open>Python strings and formatting helpers used by send\_notifications.py\<close>

text \<open>
  A Python \<open>str\<close> is modelled as a \<open>string\<close> whose characters are code points below 256.
  \<open>py_isspace\<close> is the whitespace test that \<open>str.strip()\<close> applies to such code points.
\<close>

definition py_isspace :: "char \<Rightarrow> bool" where
  "py_isspace c =
     (let n = (of_char c :: nat)
      in (9 \<le> n \<and> n \<le> 13) \<or> (28 \<le> n \<and> n \<le> 32) \<or> n = 133 \<or> n = 160)"

definition py_strip :: "string \<Rightarrow> string" where
  "py_strip s = rev (dropWhile py_isspace (rev (dropWhile py_isspace s)))"

text \<open>\<open>s.replace(old, new)\<close> for a one-character \<open>old\<close>.\<close>

definition py_replace :: "char \<Rightarrow> string \<Rightarrow> string \<Rightarrow> string" where
  "py_replace old new s = concat (map (\<lambda>c. if c = old then new else [c]) s)"

text \<open>\<open>x or ''\<close> for an optional text value: \<open>None\<close> and the empty string both give \<open>''\<close>.\<close>

definition or_empty :: "string option \<Rightarrow> string" where
  "or_empty v = (case v of None \<Rightarrow> [] | Some s \<Rightarrow> s)"

definition digit_char :: "nat \<Rightarrow> char" where
  "digit_char d = char_of (48 + d)"

text \<open>\<open>str(n)\<close> for a non-negative integer.\<close>

function str_nat :: "nat \<Rightarrow> string" where
  "str_nat n = (if n < 10 then [digit_char n] else str_nat (n div 10) @ [digit_char (n mod 10)])"
  by pat_completeness auto
termination
  by (relation "measure (\<lambda>n. n)") auto

declare str_nat.simps [simp del]

definition zfill :: "nat \<Rightarrow> string \<Rightarrow> string" where
  "zfill w s = replicate (w - length s) (CHR ''0'') @ s"

text \<open>
  A calendar date as \<open>datetime.date\<close> holds it. \<open>str(d)\<close> and \<open>d.strftime('%Y-%m-%d')\<close> both
  give \<open>YYYY-MM-DD\<close> for the four-digit years a clock reading has.
\<close>

record pydate =
  year :: nat
  month :: nat
  day :: nat

definition str_date :: "pydate \<Rightarrow> string" where
  "str_date d = zfill 4 (str_nat (year d)) @ ''-'' @ zfill 2 (str_nat (month d)) @ ''-''
                @ zfill 2 (str_nat (day d))"

definition strftime_Ymd :: "pydate \<Rightarrow> string" where
  "strftime_Ymd d = zfill 4 (str_nat (year d)) @ ''-'' @ zfill 2 (str_nat (month d)) @ ''-''
                    @ zfill 2 (str_nat (day d))"

subsection \<open>\<open>str.format\<close> with named replacement fields\<close>

datatype py_error = KeyError string | ValueError string

text \<open>
  \<open>template.format(**kwargs)\<close> restricted to what the fixed template uses: literal text,
  \<open>{name}\<close> fields looked up in the keyword arguments, and the doubled-brace escapes.
  The second argument is \<open>None\<close> while scanning literal text and \<open>Some acc\<close> while inside a
  field whose name read so far is \<open>rev acc\<close>.
\<close>

fun format_scan :: "(string \<times> string) list \<Rightarrow> string option \<Rightarrow> string \<Rightarrow> py_error + string" where
  "format_scan kw None [] = Inr []"
| "format_scan kw (Some acc) [] = Inl (ValueError ''expected } before end of string'')"
| "format_scan kw None [c] =
     (if c = CHR ''{'' then Inl (ValueError ''Single { encountered in format string'')
      else if c = CHR ''}'' then Inl (ValueError ''Single } encountered in format string'')
      else Inr [c])"
| "format_scan kw None (c # d # cs) =
     (if c = CHR ''{'' then
        (if d = CHR ''{'' then
           (case format_scan kw None cs of Inl e \<Rightarrow> Inl e | Inr r \<Rightarrow> Inr (CHR ''{'' # r))
         else format_scan kw (Some []) (d # cs))
      else if c = CHR ''}'' then
        (if d = CHR ''}'' then
           (case format_scan kw None cs of Inl e \<Rightarrow> Inl e | Inr r \<Rightarrow> Inr (CHR ''}'' # r))
         else Inl (ValueError ''Single } encountered in format string''))
      else (case format_scan kw None (d # cs) of Inl e \<Rightarrow> Inl e | Inr r \<Rightarrow> Inr (c # r)))"
| "format_scan kw (Some acc) (c # cs) =
     (if c = CHR ''}'' then
        (case map_of kw (rev acc) of
           None \<Rightarrow> Inl (KeyError (rev acc))
         | Some v \<Rightarrow> (case format_scan kw None cs of Inl e \<Rightarrow> Inl e | Inr r \<Rightarrow> Inr (v @ r)))
      else format_scan kw (Some (c # acc)) cs)"

text \<open>\<open>str(e)\<close> for the two exceptions of \<open>str.format\<close>.\<close>

fun str_error :: "py_error \<Rightarrow> string" where
  "str_error (KeyError k) = [CHR 0x27] @ k @ [CHR 0x27]"
| "str_error (ValueError m) = m"

definition py_format :: "string \<Rightarrow> (string \<times> string) list \<Rightarrow> py_error + string" where
  "py_format template kw = format_scan kw None template"

section \<open>Data model\<close>

text \<open>
  A row of the \<open>customers\<close> table as the SELECT of \<open>main\<close> returns it. The two phone columns
  are nullable text; the expiry date is the text that SQLite stores.
\<close>

record customer =
  customer_id :: nat
  customer_name :: string
  visa_type :: string
  visa_expiry_date :: string
  country_code :: "string option"
  phone_number :: "string option"

text \<open>A row of the \<open>send_logs\<close> table, with the five columns that the INSERT names.\<close>

record send_log_entry =
  log_customer_name :: string
  log_phone :: string
  log_message :: string
  log_status :: string
  log_sent_at :: string

datatype level = DEBUG | INFO | WARNING | ERROR

fun level_no :: "level \<Rightarrow> nat" where
  "level_no DEBUG = 10"
| "level_no INFO = 20"
| "level_no WARNING = 30"
| "level_no ERROR = 40"

text \<open>The JSON body and the request that \<open>requests.post\<close> receives.\<close>

record payload =
  chatId :: string
  text_field :: string
  session :: string

record http_request =
  url :: string
  json :: payload
  headers :: "(string \<times> string) list"
  timeout :: nat

text \<open>What \<open>requests.post\<close> does: it returns a response (status code, body) or raises.\<close>

datatype http_result = Response nat string | RequestException string

section \<open>The outside world\<close>

text \<open>
  Everything the script reads from outside is a field of \<open>env\<close>. Readings that may differ
  from one call to the next are indexed by the number of earlier calls of the same kind.
  \<open>datetime_now e tz k\<close> is the calendar date of the \<open>k\<close>-th \<open>datetime.now(tz)\<close>, for the zone
  named \<open>tz\<close>.
  \<open>insert_error e k\<close> is the exception, if any, that the \<open>k\<close>-th call of \<open>log_send_attempt\<close>
  meets in its \<open>try\<close> block. \<open>stays_pending e k\<close> tells whether the INSERT of that call had
  been executed when the exception came, that is, whether the exception comes from
  \<open>conn.commit()\<close> and leaves the transaction open (as "database is locked" does). An error
  that makes SQLite roll the open transaction back by itself is not covered.
\<close>

record env =
  environ :: "string \<Rightarrow> string option"
  customers_table :: "customer list"
  sql_date :: "string \<Rightarrow> string option"
  sql_datetime_now :: "nat \<Rightarrow> string"
  connect_error :: "string option"
  select_error :: "string option"
  insert_error :: "nat \<Rightarrow> string option"
  stays_pending :: "nat \<Rightarrow> bool"
  datetime_now :: "string \<Rightarrow> nat \<Rightarrow> pydate"
  requests_post :: "nat \<Rightarrow> http_request \<Rightarrow> http_result"
  random_random :: "nat \<Rightarrow> real"

text \<open>
  What the script changes or emits: the \<open>send_logs\<close> table, the rows inserted on the
  connection but not committed yet, the HTTP requests made, the \<open>time.sleep\<close> durations, the
  records of the logger, and the counters of the readings.
\<close>

record world =
  send_logs :: "send_log_entry list"
  pending :: "send_log_entry list"
  http_posts :: "http_request list"
  sleeps :: "real list"
  log_records :: "(level \<times> string) list"
  clock_reads :: nat
  insert_attempts :: nat

section \<open>Configuration\<close>

definition getenv :: "env \<Rightarrow> string \<Rightarrow> string \<Rightarrow> string" where
  "getenv e k dflt = (case environ e k of None \<Rightarrow> dflt | Some v \<Rightarrow> v)"

definition WAHA_URL :: "env \<Rightarrow> string" where
  "WAHA_URL e = getenv e ''WAHA_URL'' ''http://localhost:3000''"

definition WAHA_API_KEY :: "env \<Rightarrow> string" where
  "WAHA_API_KEY e = getenv e ''WAHA_API_KEY'' []"

definition SESSION :: "env \<Rightarrow> string" where
  "SESSION e = getenv e ''WAHA_SESSION'' ''default''"

definition UAE_TZ :: string where
  "UAE_TZ = ''Asia/Dubai''"

definition FIXED_TEMPLATE :: string where
  "FIXED_TEMPLATE = ''Dear {customer_name}, your {visa_type} visa would be expired on {visa_expiry_date}, kindly renew it. Today'' @ [CHR 0x27] @ ''s date: {today_date}''"

section \<open>The functions of send\_notifications.py\<close>

text \<open>The logger is configured at level INFO: a record below that level is dropped.\<close>

definition logger_log :: "level \<Rightarrow> string \<Rightarrow> world \<Rightarrow> world" where
  "logger_log lvl msg w =
     (if level_no INFO \<le> level_no lvl then w\<lparr>log_records := log_records w @ [(lvl, msg)]\<rparr> else w)"

text \<open>
  \<open>get_db_connection\<close>: \<open>True\<close> stands for a connection, \<open>False\<close> for \<open>None\<close>. A new
  connection has no open transaction.
\<close>

definition get_db_connection :: "env \<Rightarrow> world \<Rightarrow> bool \<times> world" where
  "get_db_connection e w =
     (case connect_error e of
        None \<Rightarrow> (True, w\<lparr>pending := []\<rparr>)
      | Some err \<Rightarrow> (False, logger_log ERROR (''DATABASE CONNECTION FAILED: '' @ err) w))"

text \<open>\<open>conn.close()\<close>: what the connection has not committed is lost.\<close>

definition conn_close :: "world \<Rightarrow> world" where
  "conn_close w = w\<lparr>pending := []\<rparr>"

definition get_waha_headers :: "env \<Rightarrow> (string \<times> string) list" where
  "get_waha_headers e =
     (if WAHA_API_KEY e \<noteq> [] then [(''Authorization'', ''Bearer '' @ WAHA_API_KEY e)] else [])"

text \<open>
  The first two lines of \<open>send_whatsapp_message\<close>: the phone number without "+", spaces
  and hyphens, followed by the suffix of an individual chat.
\<close>

definition chat_id_of :: "string \<Rightarrow> string" where
  "chat_id_of phone_no =
     (let phone = py_replace (CHR ''-'') [] (py_replace (CHR '' '') [] (py_replace (CHR ''+'') [] phone_no))
      in phone @ ''@c.us'')"

definition send_whatsapp_message :: "env \<Rightarrow> string \<Rightarrow> string \<Rightarrow> world \<Rightarrow> (bool \<times> string) \<times> world" where
  "send_whatsapp_message e phone_no message w =
     (let chat_id = chat_id_of phone_no;
          pl = \<lparr>chatId = chat_id, text_field = message, session = SESSION e\<rparr>;
          hs = get_waha_headers e @ [(''Content-Type'', ''application/json'')];
          req = \<lparr>url = WAHA_URL e @ ''/api/sendText'', json = pl, headers = hs, timeout = 30\<rparr>;
          w1 = w\<lparr>http_posts := http_posts w @ [req]\<rparr>
      in case requests_post e (length (http_posts w)) req of
           Response status_code body \<Rightarrow>
             (if status_code = 200 then
                ((True, ''sent''),
                 logger_log INFO (''Message sent successfully to '' @ phone_no) w1)
              else
                (let error_msg = ''WAHA API error: '' @ str_nat status_code @ '' - '' @ body
                 in ((False, ''failed: '' @ error_msg),
                     logger_log ERROR (''Failed to send to '' @ phone_no @ '': '' @ error_msg) w1)))
         | RequestException err \<Rightarrow>
             (let error_msg = ''Exception sending message: '' @ err
              in ((False, ''error: '' @ error_msg),
                  logger_log ERROR (''Failed to send to '' @ phone_no @ '': '' @ error_msg) w1)))"

text \<open>
  \<open>log_send_attempt\<close>: \<open>cur.execute\<close> puts the row into the open transaction of the
  connection and \<open>conn.commit()\<close> writes that transaction, with the rows an earlier failed
  commit has left in it, to the table. The handler logs the exception and does not roll
  back.
\<close>

definition log_send_attempt :: "env \<Rightarrow> string \<Rightarrow> string \<Rightarrow> string \<Rightarrow> string \<Rightarrow> world \<Rightarrow> world" where
  "log_send_attempt e name phone message status w =
     (let k = insert_attempts w;
          w1 = w\<lparr>insert_attempts := Suc k\<rparr>;
          row = \<lparr>log_customer_name = name, log_phone = phone, log_message = message,
                 log_status = status, log_sent_at = sql_datetime_now e k\<rparr>
      in case insert_error e k of
           None \<Rightarrow> w1\<lparr>send_logs := send_logs w1 @ pending w1 @ [row], pending := []\<rparr>
         | Some err \<Rightarrow>
             (let w2 = (if stays_pending e k then w1\<lparr>pending := pending w1 @ [row]\<rparr> else w1)
              in logger_log ERROR (''Failed to log send attempt: '' @ err) w2))"

text \<open>\<open>random.uniform(a, b)\<close> is \<open>a + (b - a) * random()\<close>, over the reals here.\<close>

definition random_uniform :: "env \<Rightarrow> nat \<Rightarrow> real \<Rightarrow> real \<Rightarrow> real" where
  "random_uniform e k a b = a + (b - a) * random_random e k"

record counts =
  sent_count :: nat
  failed_count :: nat
  skipped_count :: nat

text \<open>The call \<open>FIXED_TEMPLATE.format(customer_name=..., visa_type=..., ...)\<close> of \<open>main\<close>.\<close>

definition format_message :: "string \<Rightarrow> string \<Rightarrow> string \<Rightarrow> string \<Rightarrow> py_error + string" where
  "format_message name vtype expiry_date_str today_date_str =
     py_format FIXED_TEMPLATE
       [(''customer_name'', name), (''visa_type'', vtype),
        (''visa_expiry_date'', expiry_date_str), (''today_date'', today_date_str)]"

text \<open>The full phone number that \<open>main\<close> builds from the two optional columns.\<close>

definition full_phone_of :: "customer \<Rightarrow> string" where
  "full_phone_of c =
     (let cc = or_empty (country_code c);
          pn = or_empty (phone_number c);
          fp0 = [];
          fp1 = (if cc \<noteq> [] then fp0 @ py_strip cc else fp0);
          fp2 = (if pn \<noteq> [] then fp1 @ py_strip pn else fp1)
      in fp2)"

text \<open>
  The body of the \<open>for\<close> loop of \<open>main\<close> for one customer; \<open>last_customer\<close> is
  \<open>customers[-1]\<close>. An exception of \<open>str.format\<close> would leave the loop: it is the \<open>Inl\<close> result, with the
  world as the exception finds it.
  The \<open>logger.debug\<close> call before the sleep is below the logger's level and emits nothing.
\<close>

definition process_customer ::
  "env \<Rightarrow> customer \<Rightarrow> customer \<Rightarrow> counts \<times> world \<Rightarrow> (py_error \<times> world) + (counts \<times> world)" where
  "process_customer e last_customer c cw =
     (let (n, w) = cw;
          full_phone = full_phone_of c
      in if full_phone = [] then
           (let w1 = logger_log WARNING (''Skipping '' @ customer_name c @ '': No phone number'') w;
                w2 = log_send_attempt e (customer_name c) [] ''No phone number available'' ''skipped'' w1
            in Inr (n\<lparr>skipped_count := skipped_count n + 1\<rparr>, w2))
         else
           (let expiry_date_str = visa_expiry_date c;
                today_date_str = strftime_Ymd (datetime_now e UAE_TZ (clock_reads w));
                w1 = w\<lparr>clock_reads := Suc (clock_reads w)\<rparr>
            in case format_message (customer_name c) (visa_type c) expiry_date_str today_date_str of
                 Inl err \<Rightarrow> Inl (err, w1)
               | Inr message \<Rightarrow>
                   (let w2 = logger_log INFO (''Processing: '' @ customer_name c @ '' ('' @ full_phone @ '')'') w1;
                        ((success, status), w3) = send_whatsapp_message e full_phone message w2;
                        w4 = log_send_attempt e (customer_name c) full_phone message status w3;
                        n1 = (if success then n\<lparr>sent_count := sent_count n + 1\<rparr>
                              else n\<lparr>failed_count := failed_count n + 1\<rparr>)
                    in if c \<noteq> last_customer then
                         (let delay = random_uniform e (length (sleeps w4)) 6 8
                          in Inr (n1, w4\<lparr>sleeps := sleeps w4 @ [delay]\<rparr>))
                       else Inr (n1, w4))))"

fun for_customers ::
  "env \<Rightarrow> customer \<Rightarrow> customer list \<Rightarrow> counts \<times> world \<Rightarrow> (py_error \<times> world) + (counts \<times> world)" where
  "for_customers e last_customer [] cw = Inr cw"
| "for_customers e last_customer (c # cs) cw =
     (case process_customer e last_customer c cw of
        Inl err \<Rightarrow> Inl err
      | Inr cw1 \<Rightarrow> for_customers e last_customer cs cw1)"

text \<open>The rows that the SELECT of \<open>main\<close> returns for the date string \<open>today\<close>.\<close>

definition select_customers :: "env \<Rightarrow> string \<Rightarrow> customer list" where
  "select_customers e today =
     filter (\<lambda>c. sql_date e (visa_expiry_date c) = Some today) (customers_table e)"

definition banner :: string where
  "banner = replicate 60 (CHR ''='')"

text \<open>
  \<open>main\<close> returns the exit status of the process and the world it leaves. Once there is a
  connection, the \<open>finally\<close> clause closes it on every way out.
\<close>

definition main :: "env \<Rightarrow> world \<Rightarrow> nat \<times> world" where
  "main e w0 =
     (let w1 = logger_log INFO banner w0;
          w2 = logger_log INFO ''Starting automated notification process'' w1;
          w3 = logger_log INFO banner w2;
          today_uae = datetime_now e UAE_TZ (clock_reads w3);
          w4 = w3\<lparr>clock_reads := Suc (clock_reads w3)\<rparr>;
          w5 = logger_log INFO (''Today'' @ [CHR 0x27] @ ''s date (UAE): '' @ str_date today_uae) w4;
          (conn, w6) = get_db_connection e w5
      in if \<not> conn then
           (1, logger_log ERROR ''Failed to connect to database. Exiting.'' w6)
         else
           (case select_error e of
              Some err \<Rightarrow> (1, conn_close (logger_log ERROR (''Error in main process: '' @ err) w6))
            | None \<Rightarrow>
                (let customers = select_customers e (str_date today_uae);
                     w7 = logger_log INFO (''Found '' @ str_nat (length customers)
                                            @ '' customers with visas expiring today'') w6
                 in if length customers = 0 then
                      (0, conn_close (logger_log INFO ''No customers to notify. Exiting.'' w7))
                    else
                      (case for_customers e (last customers) customers
                              (\<lparr>sent_count = 0, failed_count = 0, skipped_count = 0\<rparr>, w7) of
                         Inl (err, w8) \<Rightarrow>
                           (1, conn_close (logger_log ERROR (''Error in main process: '' @ str_error err) w8))
                       | Inr (n, w8) \<Rightarrow>
                           (let w9 = logger_log INFO banner w8;
                                w10 = logger_log INFO ''Notification process completed:'' w9;
                                w11 = logger_log INFO (''  - Sent: '' @ str_nat (sent_count n)) w10;
                                w12 = logger_log INFO (''  - Failed: '' @ str_nat (failed_count n)) w11;
                                w13 = logger_log INFO (''  - Skipped: '' @ str_nat (skipped_count n)) w12;
                                w14 = logger_log INFO banner w13
                            in (0, conn_close w14))))))"

text \<open>
  The candidates of a run that starts in world \<open>w\<close>: \<open>main\<close> reads the clock once, in the zone
  \<open>UAE_TZ\<close>, before it connects, and its SELECT compares with that date.
\<close>

definition candidates :: "env \<Rightarrow> world \<Rightarrow> customer list" where
  "candidates e w = select_customers e (str_date (datetime_now e UAE_TZ (clock_reads w)))"

text \<open>
  \<open>clock_readings t cs\<close> pairs each customer of the batch \<open>cs\<close> with the number of clock
  readings made before its turn, \<open>t\<close> of them before the first: the loop body reads the
  clock once for every customer it does not skip. The number is the index of the reading
  that the customer's message shows.
\<close>

fun clock_readings :: "nat \<Rightarrow> customer list \<Rightarrow> (nat \<times> customer) list" where
  "clock_readings t [] = []"
| "clock_readings t (c # cs) =
     (t, c) # clock_readings (if full_phone_of c = [] then t else Suc t) cs"

text \<open>
  \<open>row_for e c t r\<close>: \<open>r\<close> has the columns that the loop body passes to \<open>log_send_attempt\<close> for
  customer \<open>c\<close> when \<open>t\<close> clock readings have been made before: name and full phone of \<open>c\<close>;
  for a skipped customer the fixed text and the status "skipped", otherwise the message
  formatted from the fields of \<open>c\<close> and reading \<open>t\<close> of the clock, and a status of the gateway
  client.
\<close>

definition row_for :: "env \<Rightarrow> customer \<Rightarrow> nat \<Rightarrow> send_log_entry \<Rightarrow> bool" where
  "row_for e c t r =
     (log_customer_name r = customer_name c \<and> log_phone r = full_phone_of c \<and>
      (if full_phone_of c = [] then
         log_message r = ''No phone number available'' \<and> log_status r = ''skipped''
       else
         format_message (customer_name c) (visa_type c) (visa_expiry_date c)
           (strftime_Ymd (datetime_now e UAE_TZ t)) = Inr (log_message r) \<and>
         log_status r \<noteq> ''skipped''))"

section \<open>Concrete inputs\<close>

definition world0 :: world where
  "world0 = \<lparr>send_logs = [], pending = [], http_posts = [], sleeps = [], log_records = [],
             clock_reads = 0, insert_attempts = 0\<rparr>"

definition ali :: customer where
  "ali = \<lparr>customer_id = 1, customer_name = ''Ali'', visa_type = ''Employment'',
          visa_expiry_date = ''2026-11-04'', country_code = Some ''971'',
          phone_number = Some ''501234567''\<rparr>"

definition omar :: customer where
  "omar = \<lparr>customer_id = 2, customer_name = ''Omar'', visa_type = ''Tourist'',
           visa_expiry_date = ''2026-11-04'', country_code = None, phone_number = Some []\<rparr>"

definition sara :: customer where
  "sara = \<lparr>customer_id = 3, customer_name = ''Sara'', visa_type = ''Residence'',
           visa_expiry_date = ''2027-01-15'', country_code = Some ''+971'',
           phone_number = Some ''55 123-4567''\<rparr>"

text \<open>A customer whose country code was stored with a leading tab.\<close>

definition hana :: customer where
  "hana = \<lparr>customer_id = 4, customer_name = ''Hana'', visa_type = ''Student'',
           visa_expiry_date = ''2026-11-04'', country_code = Some (CHR 0x09 # ''971''),
           phone_number = Some ''501234567''\<rparr>"

text \<open>
  A world where every call succeeds: the clock shows 4 November 2026 in every zone, the
  gateway answers 200, the store accepts every insert and commit.
\<close>

definition env0 :: env where
  "env0 = \<lparr>environ = (\<lambda>k. None), customers_table = [ali, omar, sara],
           sql_date = (\<lambda>s. Some s), sql_datetime_now = (\<lambda>k. ''2026-11-03 20:30:00''),
           connect_error = None, select_error = None, insert_error = (\<lambda>k. None),
           stays_pending = (\<lambda>k. False),
           datetime_now = (\<lambda>tz k. \<lparr>year = 2026, month = 11, day = 4\<rparr>),
           requests_post = (\<lambda>k req. Response 200 ''ok''),
           random_random = (\<lambda>k. 1 / 2)\<rparr>"

section \<open>Effects of the single functions\<close>

lemma format_message_eq:
  "format_message n v x t =
     Inr (''Dear '' @ n @ '', your '' @ v @ '' visa would be expired on '' @ x
          @ '', kindly renew it. Today'' @ [CHR 0x27] @ ''s date: '' @ t)"
  by (simp add: format_message_def py_format_def FIXED_TEMPLATE_def)

lemma logger_log_frame [simp]:
  "send_logs (logger_log l m w) = send_logs w"
  "pending (logger_log l m w) = pending w"
  "http_posts (logger_log l m w) = http_posts w"
  "sleeps (logger_log l m w) = sleeps w"
  "clock_reads (logger_log l m w) = clock_reads w"
  "insert_attempts (logger_log l m w) = insert_attempts w"
  by (simp_all add: logger_log_def)

lemma conn_close_frame [simp]:
  "send_logs (conn_close w) = send_logs w"
  "pending (conn_close w) = []"
  "http_posts (conn_close w) = http_posts w"
  "sleeps (conn_close w) = sleeps w"
  "clock_reads (conn_close w) = clock_reads w"
  "insert_attempts (conn_close w) = insert_attempts w"
  "log_records (conn_close w) = log_records w"
  by (simp_all add: conn_close_def)

lemma log_send_attempt_frame [simp]:
  "http_posts (log_send_attempt e n p m s w) = http_posts w"
  "sleeps (log_send_attempt e n p m s w) = sleeps w"
  "clock_reads (log_send_attempt e n p m s w) = clock_reads w"
  "insert_attempts (log_send_attempt e n p m s w) = Suc (insert_attempts w)"
  by (simp_all add: log_send_attempt_def Let_def split: option.splits)

lemma log_send_attempt_ok:
  assumes "insert_error e (insert_attempts w) = None"
  shows "send_logs (log_send_attempt e n p m s w) =
           send_logs w @ pending w @
             [\<lparr>log_customer_name = n, log_phone = p, log_message = m,
               log_status = s, log_sent_at = sql_datetime_now e (insert_attempts w)\<rparr>]"
    and "pending (log_send_attempt e n p m s w) = []"
  using assms by (simp_all add: log_send_attempt_def Let_def)

lemma log_send_attempt_failed:
  assumes "insert_error e (insert_attempts w) = Some err"
  shows "send_logs (log_send_attempt e n p m s w) = send_logs w"
    and "pending (log_send_attempt e n p m s w) =
           pending w @ (if stays_pending e (insert_attempts w)
                        then [\<lparr>log_customer_name = n, log_phone = p, log_message = m,
                               log_status = s, log_sent_at = sql_datetime_now e (insert_attempts w)\<rparr>]
                        else [])"
    and "log_records (log_send_attempt e n p m s w)
           = log_records w @ [(ERROR, ''Failed to log send attempt: '' @ err)]"
  using assms by (simp_all add: log_send_attempt_def Let_def logger_log_def)

lemma send_whatsapp_message_frame [simp]:
  "send_logs (snd (send_whatsapp_message e p m w)) = send_logs w"
  "pending (snd (send_whatsapp_message e p m w)) = pending w"
  "sleeps (snd (send_whatsapp_message e p m w)) = sleeps w"
  "clock_reads (snd (send_whatsapp_message e p m w)) = clock_reads w"
  "insert_attempts (snd (send_whatsapp_message e p m w)) = insert_attempts w"
  by (simp_all add: send_whatsapp_message_def Let_def split: http_result.splits)

lemma send_whatsapp_message_posts:
  "\<exists>req. http_posts (snd (send_whatsapp_message e p m w)) = http_posts w @ [req]
     \<and> chatId (json req) = chat_id_of p \<and> text_field (json req) = m"
  by (simp add: send_whatsapp_message_def Let_def split: http_result.splits)

lemma pc_skip:
  "full_phone_of c = [] \<Longrightarrow>
   process_customer e l c (n, w) =
     Inr (n\<lparr>skipped_count := skipped_count n + 1\<rparr>,
          log_send_attempt e (customer_name c) [] ''No phone number available'' ''skipped''
            (logger_log WARNING (''Skipping '' @ customer_name c @ '': No phone number'') w))"
  by (simp add: process_customer_def)

lemma pc_send:
  "full_phone_of c \<noteq> [] \<Longrightarrow>
   format_message (customer_name c) (visa_type c) (visa_expiry_date c)
     (strftime_Ymd (datetime_now e UAE_TZ (clock_reads w))) = Inr message \<Longrightarrow>
   process_customer e l c (n, w) =
     (let w2 = logger_log INFO (''Processing: '' @ customer_name c @ '' ('' @ full_phone_of c @ '')'')
                 (w\<lparr>clock_reads := Suc (clock_reads w)\<rparr>);
          r = send_whatsapp_message e (full_phone_of c) message w2;
          w4 = log_send_attempt e (customer_name c) (full_phone_of c) message (snd (fst r)) (snd r);
          n1 = (if fst (fst r) then n\<lparr>sent_count := sent_count n + 1\<rparr>
                else n\<lparr>failed_count := failed_count n + 1\<rparr>)
      in Inr (n1, if c \<noteq> l then w4\<lparr>sleeps := sleeps w4 @ [random_uniform e (length (sleeps w4)) 6 8]\<rparr>
                  else w4))"
  by (simp add: process_customer_def Let_def split_beta)

lemma format_message_total: "\<exists>m. format_message n v x t = Inr m"
  by (simp add: format_message_eq)

lemma pc_total: "\<exists>n' w'. process_customer e l c (n, w) = Inr (n', w')"
proof (cases "full_phone_of c = []")
  case True
  then show ?thesis by (simp add: pc_skip)
next
  case False
  obtain m where "format_message (customer_name c) (visa_type c) (visa_expiry_date c)
     (strftime_Ymd (datetime_now e UAE_TZ (clock_reads w))) = Inr m"
    using format_message_total by blast
  with False show ?thesis by (simp add: pc_send Let_def)
qed

lemma send_whatsapp_message_status:
  "snd (fst (send_whatsapp_message e p m w)) = ''sent'' \<or>
   (\<exists>d. snd (fst (send_whatsapp_message e p m w)) = ''failed: '' @ d) \<or>
   (\<exists>d. snd (fst (send_whatsapp_message e p m w)) = ''error: '' @ d)"
  by (simp add: send_whatsapp_message_def Let_def split: http_result.splits)

lemma pc_cases:
  obtains (skip) "full_phone_of c = []"
      "process_customer e l c (n, w) =
         Inr (n\<lparr>skipped_count := skipped_count n + 1\<rparr>,
              log_send_attempt e (customer_name c) [] ''No phone number available'' ''skipped''
                (logger_log WARNING (''Skipping '' @ customer_name c @ '': No phone number'') w))"
    | (send) message w2 r w4 n1 where "full_phone_of c \<noteq> []"
      "format_message (customer_name c) (visa_type c) (visa_expiry_date c)
         (strftime_Ymd (datetime_now e UAE_TZ (clock_reads w))) = Inr message"
      "w2 = logger_log INFO (''Processing: '' @ customer_name c @ '' ('' @ full_phone_of c @ '')'')
                 (w\<lparr>clock_reads := Suc (clock_reads w)\<rparr>)"
      "r = send_whatsapp_message e (full_phone_of c) message w2"
      "w4 = log_send_attempt e (customer_name c) (full_phone_of c) message (snd (fst r)) (snd r)"
      "n1 = (if fst (fst r) then n\<lparr>sent_count := sent_count n + 1\<rparr>
                else n\<lparr>failed_count := failed_count n + 1\<rparr>)"
      "process_customer e l c (n, w) =
         Inr (n1, if c \<noteq> l then w4\<lparr>sleeps := sleeps w4 @ [random_uniform e (length (sleeps w4)) 6 8]\<rparr>
                  else w4)"
proof (cases "full_phone_of c = []")
  case True
  then show ?thesis using skip pc_skip by blast
next
  case False
  obtain m where m: "format_message (customer_name c) (visa_type c) (visa_expiry_date c)
     (strftime_Ymd (datetime_now e UAE_TZ (clock_reads w))) = Inr m"
    using format_message_total by blast
  show ?thesis
    by (rule send [OF False m refl refl refl refl]) (simp add: pc_send [OF False m] Let_def)
qed

lemma pc_attempts:
  "process_customer e l c (n, w) = Inr (n', w') \<Longrightarrow> insert_attempts w' = Suc (insert_attempts w)"
  by (cases rule: pc_cases [of c e l n w]) auto


lemma pc_posts:
  "process_customer e l c (n, w) = Inr (n', w') \<Longrightarrow>
   \<exists>reqs. http_posts w' = http_posts w @ reqs \<and>
     map (chatId \<circ> json) reqs = (if full_phone_of c \<noteq> [] then [chat_id_of (full_phone_of c)] else [])"
proof (cases rule: pc_cases [of c e l n w])
  case skip
  assume "process_customer e l c (n, w) = Inr (n', w')"
  with skip show ?thesis by auto
next
  case (send message w2 r w4 n1)
  assume a: "process_customer e l c (n, w) = Inr (n', w')"
  obtain req where "http_posts (snd r) = http_posts w2 @ [req]" "chatId (json req) = chat_id_of (full_phone_of c)"
    using send_whatsapp_message_posts [of e "full_phone_of c" message w2] send(4) by auto
  with send a show ?thesis by (auto split: if_splits)
qed

lemma pc_clock:
  "process_customer e l c (n, w) = Inr (n', w') \<Longrightarrow>
   clock_reads w' = (if full_phone_of c = [] then clock_reads w else Suc (clock_reads w))"
  by (cases rule: pc_cases [of c e l n w]) auto

text \<open>What one turn of the loop does to the table and to the open transaction.\<close>

lemma pc_store:
  assumes "process_customer e l c (n, w) = Inr (n', w')"
  shows "\<exists>r. row_for e c (clock_reads w) r \<and>
     log_sent_at r = sql_datetime_now e (insert_attempts w) \<and>
     send_logs w' = send_logs w @
        (case insert_error e (insert_attempts w) of None \<Rightarrow> pending w @ [r] | Some err \<Rightarrow> []) \<and>
     pending w' =
        (case insert_error e (insert_attempts w) of
           None \<Rightarrow> []
         | Some err \<Rightarrow> pending w @ (if stays_pending e (insert_attempts w) then [r] else []))"
proof (cases rule: pc_cases [of c e l n w])
  case skip
  let ?r = "\<lparr>log_customer_name = customer_name c, log_phone = [],
             log_message = ''No phone number available'', log_status = ''skipped'',
             log_sent_at = sql_datetime_now e (insert_attempts w)\<rparr>"
  have r: "row_for e c (clock_reads w) ?r" using skip(1) by (simp add: row_for_def)
  from skip(2) assms have w': "w' = log_send_attempt e (customer_name c) [] ''No phone number available''
      ''skipped'' (logger_log WARNING (''Skipping '' @ customer_name c @ '': No phone number'') w)"
    by simp
  show ?thesis
  proof (cases "insert_error e (insert_attempts w)")
    case None
    then show ?thesis using r unfolding w'
      by (intro exI [of _ ?r]) (simp add: log_send_attempt_ok)
  next
    case (Some err)
    then show ?thesis using r unfolding w'
      by (intro exI [of _ ?r]) (simp add: log_send_attempt_failed)
  qed
next
  case (send message w2 r w4 n1)
  let ?r = "\<lparr>log_customer_name = customer_name c, log_phone = full_phone_of c,
             log_message = message, log_status = snd (fst r),
             log_sent_at = sql_datetime_now e (insert_attempts w)\<rparr>"
  have st: "snd (fst r) \<noteq> ''skipped''"
    using send_whatsapp_message_status [of e "full_phone_of c" message w2] send(4) by auto
  have rf: "row_for e c (clock_reads w) ?r" using send(1,2) st by (simp add: row_for_def)
  have f: "insert_attempts (snd r) = insert_attempts w" "send_logs (snd r) = send_logs w"
    "pending (snd r) = pending w"
    unfolding send(4) send(3) by simp_all
  from send(7) assms have s: "send_logs w' = send_logs w4" and p: "pending w' = pending w4"
    by (auto split: if_splits)
  show ?thesis
  proof (cases "insert_error e (insert_attempts w)")
    case None
    then show ?thesis using rf unfolding s p send(5)
      by (intro exI [of _ ?r]) (simp add: log_send_attempt_ok f)
  next
    case (Some err)
    then show ?thesis using rf unfolding s p send(5)
      by (intro exI [of _ ?r]) (simp add: log_send_attempt_failed f)
  qed
qed

lemma fc_total: "\<exists>n' w'. for_customers e l cs (n, w) = Inr (n', w')"
proof (induction cs arbitrary: n w)
  case Nil
  show ?case by simp
next
  case (Cons c cs)
  obtain n1 w1 where "process_customer e l c (n, w) = Inr (n1, w1)"
    using pc_total by blast
  with Cons show ?case by simp
qed

lemma fc_Cons:
  "for_customers e l (c # cs) (n, w) = Inr (n', w') \<Longrightarrow>
   \<exists>n1 w1. process_customer e l c (n, w) = Inr (n1, w1) \<and> for_customers e l cs (n1, w1) = Inr (n', w')"
  by (auto split: sum.splits)

lemma fc_attempts:
  "for_customers e l cs (n, w) = Inr (n', w') \<Longrightarrow> insert_attempts w' = insert_attempts w + length cs"
proof (induction cs arbitrary: n w)
  case Nil
  then show ?case by simp
next
  case (Cons c cs)
  from fc_Cons [OF Cons.prems] obtain n1 w1 where
    s: "process_customer e l c (n, w) = Inr (n1, w1)" and r: "for_customers e l cs (n1, w1) = Inr (n', w')"
    by blast
  from Cons.IH [OF r] pc_attempts [OF s] show ?case by simp
qed


lemma fc_posts:
  "for_customers e l cs (n, w) = Inr (n', w') \<Longrightarrow>
   \<exists>reqs. http_posts w' = http_posts w @ reqs \<and>
     map (chatId \<circ> json) reqs = map (chat_id_of \<circ> full_phone_of) (filter (\<lambda>c. full_phone_of c \<noteq> []) cs)"
proof (induction cs arbitrary: n w)
  case Nil
  then show ?case by simp
next
  case (Cons c cs)
  from fc_Cons [OF Cons.prems] obtain n1 w1 where
    s: "process_customer e l c (n, w) = Inr (n1, w1)" and r: "for_customers e l cs (n1, w1) = Inr (n', w')"
    by blast
  from pc_posts [OF s] obtain r1 where r1: "http_posts w1 = http_posts w @ r1"
    "map (chatId \<circ> json) r1 = (if full_phone_of c \<noteq> [] then [chat_id_of (full_phone_of c)] else [])"
    by blast
  from Cons.IH [OF r] obtain r2 where r2: "http_posts w' = http_posts w1 @ r2"
    "map (chatId \<circ> json) r2 = map (chat_id_of \<circ> full_phone_of) (filter (\<lambda>c. full_phone_of c \<noteq> []) cs)"
    by blast
  have "http_posts w' = http_posts w @ (r1 @ r2)" using r1 r2 by simp
  moreover have "map (chatId \<circ> json) (r1 @ r2)
      = map (chat_id_of \<circ> full_phone_of) (filter (\<lambda>c. full_phone_of c \<noteq> []) (c # cs))"
    using r1(2) r2(2) by simp
  ultimately show ?case by blast
qed

section \<open>The table after the loop\<close>

lemma bex_interval_step:
  assumes "a < b"
  shows "(\<exists>j \<in> {a..<b}. P j) = (P a \<or> (\<exists>j \<in> {Suc a..<b}. P j))"
proof -
  have "{a..<b} = insert a {Suc a..<b}" using assms by auto
  then show ?thesis by simp
qed

lemma map_snd_clock_readings: "map snd (clock_readings t cs) = cs"
  by (induction cs arbitrary: t) simp_all

lemma length_clock_readings [simp]: "length (clock_readings t cs) = length cs"
  by (induction cs arbitrary: t) simp_all

text \<open>
  The table after the loop: the row of call \<open>k\<close> is in it when its INSERT was executed and
  some call from \<open>k\<close> on commits.
\<close>

lemma fc_store:
  "for_customers e l cs (n, w) = Inr (n', w') \<Longrightarrow>
   \<exists>rows. send_logs w' = send_logs w @
       (if \<exists>j \<in> {insert_attempts w..<insert_attempts w + length cs}. insert_error e j = None
        then pending w else []) @ rows \<and>
     list_all2 (\<lambda>r ktc. row_for e (snd (snd ktc)) (fst (snd ktc)) r) rows
       (filter (\<lambda>ktc. (insert_error e (fst ktc) = None \<or> stays_pending e (fst ktc)) \<and>
                  (\<exists>j \<in> {fst ktc..<insert_attempts w + length cs}. insert_error e j = None))
          (enumerate (insert_attempts w) (clock_readings (clock_reads w) cs)))"
proof (induction cs arbitrary: n w)
  case Nil
  then show ?case by simp
next
  case (Cons c cs)
  from fc_Cons [OF Cons.prems] obtain n1 w1 where
    s: "process_customer e l c (n, w) = Inr (n1, w1)" and r: "for_customers e l cs (n1, w1) = Inr (n', w')"
    by blast
  define a where "a = insert_attempts w"
  define b where "b = a + length (c # cs)"
  define t where "t = clock_reads w"
  let ?S = "\<lambda>j. insert_error e j = None"
  let ?W = "\<lambda>ktc. (insert_error e (fst ktc) = None \<or> stays_pending e (fst ktc)) \<and>
                  (\<exists>j \<in> {fst ktc..<b}. insert_error e j = None)"
  let ?R = "\<lambda>r ktc. row_for e (snd (snd ktc)) (fst (snd ktc)) r"
  from pc_store [OF s] obtain r0 where
    r0: "row_for e c t r0" and
    sl: "send_logs w1 = send_logs w @ (case insert_error e a of None \<Rightarrow> pending w @ [r0] | Some err \<Rightarrow> [])" and
    pd: "pending w1 = (case insert_error e a of None \<Rightarrow> []
                       | Some err \<Rightarrow> pending w @ (if stays_pending e a then [r0] else []))"
    unfolding a_def t_def by blast
  have a1: "insert_attempts w1 = Suc a" using pc_attempts [OF s] by (simp add: a_def)
  have b1: "Suc a + length cs = b" by (simp add: b_def)
  define t1 where "t1 = clock_reads w1"
  have t1: "t1 = (if full_phone_of c = [] then t else Suc t)"
    using pc_clock [OF s] by (simp add: t1_def t_def)
  from Cons.IH [OF r] obtain rows' where
    i1: "send_logs w' = send_logs w1 @ (if \<exists>j \<in> {Suc a..<b}. ?S j then pending w1 else []) @ rows'" and
    i2: "list_all2 ?R rows' (filter ?W (enumerate (Suc a) (clock_readings t1 cs)))"
    unfolding a1 b1 t1_def by blast
  have en: "enumerate a (clock_readings t (c # cs)) = (a, (t, c)) # enumerate (Suc a) (clock_readings t1 cs)"
    by (simp add: t1)
  have ab: "a < b" by (simp add: b_def)
  have E: "(\<exists>j \<in> {a..<b}. ?S j) = (?S a \<or> (\<exists>j \<in> {Suc a..<b}. ?S j))"
    by (rule bex_interval_step [OF ab])
  have goal: "\<exists>rows. send_logs w' = send_logs w @ (if \<exists>j \<in> {a..<b}. ?S j then pending w else []) @ rows \<and>
     list_all2 ?R rows (filter ?W (enumerate a (clock_readings t (c # cs))))"
  proof (cases "insert_error e a")
    case None
    have w: "?W (a, (t, c))" using None ab by auto
    from None sl pd i1 have "send_logs w' = send_logs w @ pending w @ (r0 # rows')" by simp
    moreover have "list_all2 ?R (r0 # rows') (filter ?W (enumerate a (clock_readings t (c # cs))))"
      unfolding en using w r0 i2 by simp
    moreover have "\<exists>j \<in> {a..<b}. ?S j" using None E by simp
    ultimately show ?thesis by (intro exI [of _ "r0 # rows'"]) simp
  next
    case (Some err)
    then have E': "(\<exists>j \<in> {a..<b}. ?S j) = (\<exists>j \<in> {Suc a..<b}. ?S j)" using E by simp
    show ?thesis
    proof (cases "stays_pending e a \<and> (\<exists>j \<in> {Suc a..<b}. ?S j)")
      case True
      then have w: "?W (a, (t, c))" using E' by simp
      from True Some sl pd i1 have "send_logs w' = send_logs w @ pending w @ (r0 # rows')" by simp
      moreover have "list_all2 ?R (r0 # rows') (filter ?W (enumerate a (clock_readings t (c # cs))))"
        unfolding en using w r0 i2 by simp
      moreover have "\<exists>j \<in> {a..<b}. ?S j" using True E' by simp
      ultimately show ?thesis by (intro exI [of _ "r0 # rows'"]) simp
    next
      case False
      then have w: "\<not> ?W (a, (t, c))" using Some E' by auto
      have "send_logs w' = send_logs w @ (if \<exists>j \<in> {a..<b}. ?S j then pending w else []) @ rows'"
      proof (cases "\<exists>j \<in> {Suc a..<b}. ?S j")
        case True
        with False have "\<not> stays_pending e a" by simp
        with True Some sl pd i1 E' show ?thesis by simp
      next
        case False
        then have ne: "\<not> (\<exists>j \<in> {a..<b}. ?S j)" using E' by blast
        from Some sl have "send_logs w1 = send_logs w" by simp
        with i1 [unfolded if_not_P [OF False]] show ?thesis
          unfolding if_not_P [OF ne] by simp
      qed
      moreover have "filter ?W (enumerate a (clock_readings t (c # cs)))
          = filter ?W (enumerate (Suc a) (clock_readings t1 cs))"
        unfolding en filter.simps(2) if_not_P [OF w] by (rule refl)
      then have "list_all2 ?R rows' (filter ?W (enumerate a (clock_readings t (c # cs))))"
        using i2 by (simp only:)
      ultimately show ?thesis by (intro exI [of _ rows']) simp
    qed
  qed
  then show ?case unfolding a_def b_def t_def by simp
qed

section \<open>Effects of a whole run\<close>

lemma main_run_ex:
  assumes "connect_error e = None" "select_error e = None"
  shows "\<exists>n0 w1 n' w'. for_customers e (last (candidates e w)) (candidates e w) (n0, w1) = Inr (n', w')
     \<and> send_logs w1 = send_logs w \<and> pending w1 = [] \<and> http_posts w1 = http_posts w
     \<and> sleeps w1 = sleeps w \<and> insert_attempts w1 = insert_attempts w
     \<and> clock_reads w1 = Suc (clock_reads w)
     \<and> fst (main e w) = 0
     \<and> send_logs (snd (main e w)) = send_logs w' \<and> http_posts (snd (main e w)) = http_posts w'
     \<and> sleeps (snd (main e w)) = sleeps w' \<and> insert_attempts (snd (main e w)) = insert_attempts w'"
proof -
  let ?cs = "candidates e w"
  let ?n0 = "\<lparr>sent_count = 0, failed_count = 0, skipped_count = 0\<rparr>"
  define w1 where "w1 = logger_log INFO (''Found '' @ str_nat (length ?cs) @ '' customers with visas expiring today'')
     ((logger_log INFO (''Today'' @ [CHR 0x27] @ ''s date (UAE): '' @ str_date (datetime_now e UAE_TZ (clock_reads w)))
       ((logger_log INFO banner (logger_log INFO ''Starting automated notification process'' (logger_log INFO banner w)))
          \<lparr>clock_reads := Suc (clock_reads w)\<rparr>))\<lparr>pending := []\<rparr>)"
  obtain n' w' where loop: "for_customers e (last ?cs) ?cs (?n0, w1) = Inr (n', w')"
    using fc_total by blast
  have f: "send_logs w1 = send_logs w" "pending w1 = []" "http_posts w1 = http_posts w"
    "sleeps w1 = sleeps w" "insert_attempts w1 = insert_attempts w"
    "clock_reads w1 = Suc (clock_reads w)"
    by (simp_all add: w1_def)
  have m: "fst (main e w) = 0 \<and> send_logs (snd (main e w)) = send_logs w' \<and> http_posts (snd (main e w)) = http_posts w'
     \<and> sleeps (snd (main e w)) = sleeps w' \<and> insert_attempts (snd (main e w)) = insert_attempts w'"
  proof (cases "?cs = []")
    case True
    with loop have "w' = w1" by simp
    with True assms show ?thesis
      by (simp add: main_def Let_def get_db_connection_def candidates_def w1_def)
  next
    case False
    with loop assms show ?thesis 
      by (simp add: main_def Let_def get_db_connection_def candidates_def w1_def)
  qed
  with loop f show ?thesis by blast
qed

lemma main_run:
  assumes "connect_error e = None" "select_error e = None"
  obtains (run) n0 w1 n' w' where
    "for_customers e (last (candidates e w)) (candidates e w) (n0, w1) = Inr (n', w')"
    "send_logs w1 = send_logs w" "pending w1 = []" "http_posts w1 = http_posts w"
    "sleeps w1 = sleeps w" "insert_attempts w1 = insert_attempts w"
    "clock_reads w1 = Suc (clock_reads w)"
    "fst (main e w) = 0"
    "send_logs (snd (main e w)) = send_logs w'" "http_posts (snd (main e w)) = http_posts w'"
    "sleeps (snd (main e w)) = sleeps w'" "insert_attempts (snd (main e w)) = insert_attempts w'"
proof -
  from main_run_ex [OF assms, of w] obtain n0 w1 n' w' where
    "for_customers e (last (candidates e w)) (candidates e w) (n0, w1) = Inr (n', w')
     \<and> send_logs w1 = send_logs w \<and> pending w1 = [] \<and> http_posts w1 = http_posts w
     \<and> sleeps w1 = sleeps w \<and> insert_attempts w1 = insert_attempts w
     \<and> clock_reads w1 = Suc (clock_reads w)
     \<and> fst (main e w) = 0
     \<and> send_logs (snd (main e w)) = send_logs w' \<and> http_posts (snd (main e w)) = http_posts w'
     \<and> sleeps (snd (main e w)) = sleeps w' \<and> insert_attempts (snd (main e w)) = insert_attempts w'"
    by (elim exE)
  then show thesis by (intro run [of n0 w1 n' w']) simp_all
qed

lemma candidates_env0: "candidates env0 world0 = [ali, omar]"
  by (simp add: candidates_def select_customers_def env0_def world0_def
      ali_def omar_def sara_def) code_simp


lemma str_date_2026_11_04: "str_date \<lparr>year = 2026, month = 11, day = 4\<rparr> = ''2026-11-04''"
  by code_simp

lemma strftime_2026_11_04: "strftime_Ymd \<lparr>year = 2026, month = 11, day = 4\<rparr> = ''2026-11-04''"
  by code_simp

lemma str_nat_500: "str_nat 500 = ''500''"
  by code_simp

lemma full_phone_empty:
  assumes "country_code c = None \<or> country_code c = Some []"
    "phone_number c = None \<or> phone_number c = Some []"
  shows "full_phone_of c = []"
  using assms by (auto simp add: full_phone_of_def or_empty_def)

text \<open>
  The table after a run: the rows appended are, in order, those of the candidates whose
  INSERT was executed and was followed, in the same run, by a commit that succeeded. Each
  row is the row of its own candidate, with the clock reading of that candidate's turn.
\<close>

lemma main_store:
  assumes "connect_error e = None" "select_error e = None"
  shows "\<exists>rows. send_logs (snd (main e w)) = send_logs w @ rows \<and>
     list_all2 (\<lambda>r ktc. row_for e (snd (snd ktc)) (fst (snd ktc)) r) rows
       (filter (\<lambda>ktc. (insert_error e (fst ktc) = None \<or> stays_pending e (fst ktc)) \<and>
                  (\<exists>j \<in> {fst ktc..<insert_attempts w + length (candidates e w)}.
                      insert_error e j = None))
          (enumerate (insert_attempts w)
             (clock_readings (Suc (clock_reads w)) (candidates e w))))"
  using assms
proof (cases rule: main_run [where e = e and w = w])
  case (run n0 w1 n' w')
  from fc_store [OF run(1)] show ?thesis
    unfolding run(2,3,6,7,9) by simp
qed

lemma main_attempts:
  assumes "connect_error e = None" "select_error e = None"
  shows "insert_attempts (snd (main e w)) = insert_attempts w + length (candidates e w)"
  using assms
proof (cases rule: main_run [where e = e and w = w])
  case (run n0 w1 n' w')
  from fc_attempts [OF run(1)] run show ?thesis by simp
qed

lemma main_posts:
  assumes "connect_error e = None" "select_error e = None"
  shows "\<exists>reqs. http_posts (snd (main e w)) = http_posts w @ reqs \<and>
     map (chatId \<circ> json) reqs
       = map (chat_id_of \<circ> full_phone_of) (filter (\<lambda>c. full_phone_of c \<noteq> []) (candidates e w))"
  using assms
proof (cases rule: main_run [where e = e and w = w])
  case (run n0 w1 n' w')
  from fc_posts [OF run(1)] run show ?thesis by auto
qed

lemma in_clock_readings: "tc \<in> set (clock_readings t cs) \<Longrightarrow> snd tc \<in> set cs"
  by (metis imageI map_snd_clock_readings set_map)

lemma in_enumerate_clock_readings:
  assumes "ktc \<in> set (enumerate a (clock_readings t cs))"
  shows "snd (snd ktc) \<in> set cs"
proof -
  have "snd ` set (enumerate a (clock_readings t cs)) = set (clock_readings t cs)"
    by (metis set_map map_snd_enumerate)
  with assms have "snd ktc \<in> set (clock_readings t cs)" by (metis imageI)
  then show ?thesis by (rule in_clock_readings)
qed

lemma list_all2_in_set:
  "list_all2 P xs ys \<Longrightarrow> x \<in> set xs \<Longrightarrow> \<exists>y \<in> set ys. P x y"
  by (induction rule: list_all2_induct) auto



section \<open>Phone numbers and chat identifiers\<close>

lemma py_replace_filter: "py_replace ch [] s = filter (\<lambda>c. c \<noteq> ch) s"
  unfolding py_replace_def by (induction s) simp_all

lemma chat_id_of_filter:
  "chat_id_of s = filter (\<lambda>c. c \<noteq> CHR ''+'' \<and> c \<noteq> CHR '' '' \<and> c \<noteq> CHR ''-'') s @ ''@c.us''"
proof -
  have "filter (\<lambda>c. c \<noteq> CHR ''-'') (filter (\<lambda>c. c \<noteq> CHR '' '') (filter (\<lambda>c. c \<noteq> CHR ''+'') s))
      = filter (\<lambda>c. c \<noteq> CHR ''+'' \<and> c \<noteq> CHR '' '' \<and> c \<noteq> CHR ''-'') s"
    by (induction s) simp_all
  then show ?thesis
    unfolding chat_id_of_def Let_def py_replace_filter by simp
qed

lemma py_strip_Nil: "py_strip [] = []"
  unfolding py_strip_def by simp

lemma full_phone_of_eq:
  "full_phone_of c = py_strip (or_empty (country_code c)) @ py_strip (or_empty (phone_number c))"
proof (cases "or_empty (country_code c) = []"; cases "or_empty (phone_number c) = []")
qed (simp_all add: full_phone_of_def Let_def py_strip_Nil)

lemma filter_dropWhile_space:
  assumes "\<And>c. c \<in> set s \<Longrightarrow> py_isspace c \<Longrightarrow> c = CHR '' ''"
  shows "filter (\<lambda>c. c \<noteq> CHR ''+'' \<and> c \<noteq> CHR '' '' \<and> c \<noteq> CHR ''-'') (dropWhile py_isspace s)
       = filter (\<lambda>c. c \<noteq> CHR ''+'' \<and> c \<noteq> CHR '' '' \<and> c \<noteq> CHR ''-'') s"
  using assms
proof (induction s)
  case Nil
  show ?case by simp
next
  case (Cons a s)
  have ih: "filter (\<lambda>c. c \<noteq> CHR ''+'' \<and> c \<noteq> CHR '' '' \<and> c \<noteq> CHR ''-'') (dropWhile py_isspace s)
       = filter (\<lambda>c. c \<noteq> CHR ''+'' \<and> c \<noteq> CHR '' '' \<and> c \<noteq> CHR ''-'') s"
    by (rule Cons.IH) (simp add: Cons.prems)
  show ?case
  proof (cases "py_isspace a")
    case True
    then have "a = CHR '' ''" using Cons.prems [of a] by simp
    with True ih show ?thesis by simp
  next
    case False
    then show ?thesis by simp
  qed
qed

lemma filter_py_strip_space:
  assumes "\<And>c. c \<in> set s \<Longrightarrow> py_isspace c \<Longrightarrow> c = CHR '' ''"
  shows "filter (\<lambda>c. c \<noteq> CHR ''+'' \<and> c \<noteq> CHR '' '' \<and> c \<noteq> CHR ''-'') (py_strip s)
       = filter (\<lambda>c. c \<noteq> CHR ''+'' \<and> c \<noteq> CHR '' '' \<and> c \<noteq> CHR ''-'') s"
proof -
  let ?f = "filter (\<lambda>c. c \<noteq> CHR ''+'' \<and> c \<noteq> CHR '' '' \<and> c \<noteq> CHR ''-'')"
  have a: "c = CHR '' ''" if "c \<in> set (rev (dropWhile py_isspace s))" "py_isspace c" for c
  proof -
    from that(1) have "c \<in> set s" by (auto dest: set_dropWhileD)
    then show ?thesis using that(2) by (rule assms)
  qed
  have "?f (py_strip s) = rev (?f (dropWhile py_isspace (rev (dropWhile py_isspace s))))"
    unfolding py_strip_def by (simp only: rev_filter)
  also have "\<dots> = rev (?f (rev (dropWhile py_isspace s)))"
    by (simp only: filter_dropWhile_space [OF a])
  also have "\<dots> = ?f (dropWhile py_isspace s)" by (simp only: rev_filter rev_rev_ident)
  also have "\<dots> = ?f s" by (rule filter_dropWhile_space [OF assms])
  finally show ?thesis .
qed

lemma full_phone_hana: "full_phone_of hana = ''971501234567''"
  by (simp add: full_phone_of_def or_empty_def py_strip_def py_isspace_def hana_def)

lemma full_phone_ali: "full_phone_of ali = ''971501234567''"
  by (simp add: full_phone_of_def or_empty_def py_strip_def py_isspace_def ali_def)

lemma full_phone_omar: "full_phone_of omar = []"
  by (simp add: full_phone_of_def or_empty_def omar_def)

section \<open>Logged messages\<close>

lemma digit_char_not_brace:
  assumes "d < 10" shows "digit_char d \<noteq> CHR ''{''"
proof
  assume "digit_char d = CHR ''{''"
  then have "(of_char (digit_char d) :: nat) = of_char (CHR ''{'')" by simp
  then have "(48 + d) mod 256 = 123" by (simp add: digit_char_def)
  with assms show False by simp
qed

lemma str_nat_no_brace: "CHR ''{'' \<notin> set (str_nat n)"
proof (induction n rule: str_nat.induct)
  case (1 n)
  show ?case
  proof (cases "n < 10")
    case True
    then show ?thesis using digit_char_not_brace [of n] by (simp add: str_nat.simps [of n])
  next
    case False
    have "n mod 10 < 10" by simp
    from digit_char_not_brace [OF this] 1 [OF False] False
    show ?thesis by (simp add: str_nat.simps [of n])
  qed
qed

lemma strftime_no_brace: "CHR ''{'' \<notin> set (strftime_Ymd d)"
  by (simp add: strftime_Ymd_def zfill_def str_nat_no_brace)

section \<open>Pacing\<close>





section \<open>Exceptions of the gateway\<close>




section \<open>What a run depends on\<close>











lemma main_env0_messages:
  "map log_message (send_logs (snd (main env0 world0)))
     = [''Dear Ali, your Employment visa would be expired on 2026-11-04, kindly renew it. Today''
          @ [CHR 0x27] @ ''s date: 2026-11-04'',
        ''No phone number available'']"
proof -
  have fa: "full_phone_of ali \<noteq> []" by (simp add: full_phone_ali)
  have s: "select_customers env0 ''2026-11-04'' = [ali, omar]"
    using candidates_env0 by (simp add: candidates_def env0_def world0_def str_date_2026_11_04)
  have e: "connect_error env0 = None" "select_error env0 = None" "insert_error env0 k = None"
    "datetime_now env0 tz k = \<lparr>year = 2026, month = 11, day = 4\<rparr>" for k tz
    by (simp_all add: env0_def)
  have nm: "customer_name ali = ''Ali''" "visa_type ali = ''Employment''"
    "visa_expiry_date ali = ''2026-11-04''"
    by (simp_all add: ali_def)
  show ?thesis
    by (simp add: main_def Let_def split_beta get_db_connection_def e s str_date_2026_11_04
        strftime_2026_11_04 world0_def process_customer_def fa full_phone_omar
        format_message_eq log_send_attempt_ok nm)
qed

section \<open>Rows and candidates\<close>

lemma enumerate_bounds:
  assumes "kx \<in> set (enumerate a xs)"
  shows "a \<le> fst kx \<and> fst kx < a + length xs"
  using assms unfolding in_set_enumerate_eq by simp

lemma map_snd_snd_enumerate_clock_readings:
  "map (\<lambda>ktc. snd (snd ktc)) (enumerate a (clock_readings t cs)) = cs"
proof -
  have "map (\<lambda>ktc. snd (snd ktc)) (enumerate a (clock_readings t cs))
      = map snd (map snd (enumerate a (clock_readings t cs)))" by (simp only: map_map comp_def)
  also have "\<dots> = cs" by (simp only: map_snd_enumerate map_snd_clock_readings)
  finally show ?thesis .
qed

lemma written_split:
  "(\<lambda>(k, t, c). (insert_error e k = None \<or> stays_pending e k) \<and>
                 (\<exists>j \<in> {k..<b}. insert_error e j = None))
   = (\<lambda>ktc :: nat \<times> nat \<times> customer.
        (insert_error e (fst ktc) = None \<or> stays_pending e (fst ktc)) \<and>
        (\<exists>j \<in> {fst ktc..<b}. insert_error e j = None))"
  by (simp add: fun_eq_iff)




section \<open>The claims\<close>

text \<open>
  C3. For every gateway call made by the gateway client, an HTTP 200 response yields the
  status label "sent"; any other HTTP response yields a status label that is not "sent" and
  contains the decimal status code and the response body; an exception of the transport
  yields a status label that is not "sent" and contains the description of the exception.
  The request of the call is the last one of the trace; the answer is what \<open>requests.post\<close>
  gives for it.
\<close>

theorem C3_gateway_status_label:
  "let r = send_whatsapp_message e p m w;
       req = last (http_posts (snd r));
       answer = requests_post e (length (http_posts w)) req;
       status = snd (fst r)
   in (\<forall>body. answer = Response 200 body \<longrightarrow> fst (fst r) \<and> status = ''sent'') \<and>
      (\<forall>code body. answer = Response code body \<and> code \<noteq> 200 \<longrightarrow>
         \<not> fst (fst r) \<and> status \<noteq> ''sent'' \<and>
         status = ''failed: WAHA API error: '' @ str_nat code @ '' - '' @ body \<and>
         sublist (str_nat code) status \<and> sublist body status) \<and>
      (\<forall>err. answer = RequestException err \<longrightarrow>
         \<not> fst (fst r) \<and> status \<noteq> ''sent'' \<and>
         status = ''error: Exception sending message: '' @ err \<and> sublist err status)"
proof -
  have s1: "sublist (str_nat code) (''failed: WAHA API error: '' @ str_nat code @ '' - '' @ body)" for code body
    by (rule sublist_appendI)
  have s2: "sublist body (''failed: WAHA API error: '' @ str_nat code @ '' - '' @ body)" for code body
    using sublist_appendI [of body "''failed: WAHA API error: '' @ str_nat code @ '' - ''" "[]"] by simp
  have s3: "sublist err (''error: Exception sending message: '' @ err)" for err 
    using sublist_appendI [of err "''error: Exception sending message: ''" "[]"] by simp
  show ?thesis
    using s1 s2 s3
    by (simp add: send_whatsapp_message_def Let_def split: http_result.splits)
qed

theorem C3_gateway_status_label_witness:
  "snd (fst (send_whatsapp_message env0 ''971501234567'' ''hello'' world0)) = ''sent'' \<and>
   snd (fst (send_whatsapp_message (env0\<lparr>requests_post := (\<lambda>k req. Response 500 ''boom'')\<rparr>)
               ''971501234567'' ''hello'' world0)) = ''failed: WAHA API error: 500 - boom'' \<and>
   snd (fst (send_whatsapp_message (env0\<lparr>requests_post := (\<lambda>k req. RequestException ''timed out'')\<rparr>)
               ''971501234567'' ''hello'' world0)) = ''error: Exception sending message: timed out''"
  using C3_gateway_status_label [of env0 "''971501234567''" "''hello''" world0]
    C3_gateway_status_label [of "env0\<lparr>requests_post := (\<lambda>k req. Response 500 ''boom'')\<rparr>"
       "''971501234567''" "''hello''" world0]
    C3_gateway_status_label [of "env0\<lparr>requests_post := (\<lambda>k req. RequestException ''timed out'')\<rparr>"
       "''971501234567''" "''hello''" world0]
  by (simp add: Let_def env0_def str_nat_500)




text \<open>
  C1, as amended. For every candidate of a run exactly one log write is attempted,
  whether the candidate is skipped, sent or failed. At most one row per candidate is
  appended: the rows appended are the rows of a sub-list of the candidates, in the order
  of the candidates, each with the name and the full phone number of its candidate. When
  no log write fails with a storage error, the sub-list is the whole list: exactly one
  row per candidate.
\<close>

theorem C1_one_log_row_per_candidate:
  assumes "connect_error e = None" and "select_error e = None"
  shows "insert_attempts (snd (main e w)) = insert_attempts w + length (candidates e w) \<and>
    (\<exists>rows cs'. send_logs (snd (main e w)) = send_logs w @ rows \<and>
       subseq cs' (candidates e w) \<and>
       list_all2 (\<lambda>r c. log_customer_name r = customer_name c \<and> log_phone r = full_phone_of c)
         rows cs' \<and>
       ((\<forall>k. insert_error e k = None) \<longrightarrow> cs' = candidates e w))"
proof -
  let ?W = "\<lambda>ktc. (insert_error e (fst ktc) = None \<or> stays_pending e (fst ktc)) \<and>
                  (\<exists>j \<in> {fst ktc..<insert_attempts w + length (candidates e w)}.
                      insert_error e j = None)"
  let ?X = "enumerate (insert_attempts w) (clock_readings (Suc (clock_reads w)) (candidates e w))"
  let ?c = "\<lambda>ktc :: nat \<times> nat \<times> customer. snd (snd ktc)"
  from main_store [OF assms, of w] obtain rows where
    a: "send_logs (snd (main e w)) = send_logs w @ rows" and
    b: "list_all2 (\<lambda>r ktc. row_for e (snd (snd ktc)) (fst (snd ktc)) r) rows (filter ?W ?X)"
    by blast
  define cs' where "cs' = map ?c (filter ?W ?X)"
  have "subseq (map ?c (filter ?W ?X)) (map ?c ?X)"
    by (intro subseq_map subseq_filter_left)
  then have s: "subseq cs' (candidates e w)"
    unfolding cs'_def map_snd_snd_enumerate_clock_readings .
  from b have "list_all2 (\<lambda>r ktc. log_customer_name r = customer_name (?c ktc)
      \<and> log_phone r = full_phone_of (?c ktc)) rows (filter ?W ?X)"
    by (rule list_all2_mono) (simp add: row_for_def)
  then have l: "list_all2 (\<lambda>r c. log_customer_name r = customer_name c \<and> log_phone r = full_phone_of c)
      rows cs'"
    unfolding cs'_def by (simp add: list_all2_map2)
  have f: "cs' = candidates e w" if ok: "\<forall>k. insert_error e k = None"
  proof -
    have "?W ktc" if "ktc \<in> set ?X" for ktc
    proof -
      from enumerate_bounds [OF that]
      have "fst ktc \<in> {fst ktc..<insert_attempts w + length (candidates e w)}" by simp
      with ok show ?thesis by blast
    qed
    then have "filter ?W ?X = ?X" by (simp only: filter_id_conv) blast
    then show ?thesis unfolding cs'_def
      by (simp only: map_snd_snd_enumerate_clock_readings)
  qed
  have "\<exists>rows cs'. send_logs (snd (main e w)) = send_logs w @ rows \<and>
       subseq cs' (candidates e w) \<and>
       list_all2 (\<lambda>r c. log_customer_name r = customer_name c \<and> log_phone r = full_phone_of c)
         rows cs' \<and>
       ((\<forall>k. insert_error e k = None) \<longrightarrow> cs' = candidates e w)"
    by (rule exI [of _ rows], rule exI [of _ cs']) (intro conjI impI a s l f)
  with main_attempts [OF assms, of w] show ?thesis by (rule conjI)
qed

theorem C1_one_log_row_per_candidate_witness:
  "connect_error env0 = None \<and> select_error env0 = None \<and>
   (\<forall>k. insert_error env0 k = None) \<and>
   insert_attempts (snd (main env0 world0)) = 2 \<and>
   map log_customer_name (send_logs (snd (main env0 world0))) = [''Ali'', ''Omar''] \<and>
   map log_phone (send_logs (snd (main env0 world0))) = [''971501234567'', []]"
proof -
  have h: "connect_error env0 = None" "select_error env0 = None" by (simp_all add: env0_def)
  have i: "\<forall>k. insert_error env0 k = None" by (simp add: env0_def)
  from C1_one_log_row_per_candidate [OF h, of world0] i obtain rows where
    a: "insert_attempts (snd (main env0 world0)) = insert_attempts world0 + length (candidates env0 world0)"
    and b: "send_logs (snd (main env0 world0)) = send_logs world0 @ rows"
    and c: "list_all2 (\<lambda>r c. log_customer_name r = customer_name c \<and> log_phone r = full_phone_of c)
         rows (candidates env0 world0)"
    by auto
  have nm: "customer_name ali = ''Ali''" "customer_name omar = ''Omar''"
    by (simp_all add: ali_def omar_def)
  from c have "map log_customer_name rows = [''Ali'', ''Omar'']"
    "map log_phone rows = [''971501234567'', []]"
    unfolding candidates_env0
    by (auto simp add: list_all2_Cons2 full_phone_ali full_phone_omar nm)
  with a b h i show ?thesis
    unfolding candidates_env0 by (simp add: world0_def)
qed

text \<open>
  C1 as stated fails: with a store that rejects every INSERT, two candidates are selected
  and no row is appended.
\<close>

theorem C1_counterexample:
  "candidates (env0\<lparr>insert_error := (\<lambda>k. Some ''database is locked'')\<rparr>) world0 = [ali, omar] \<and>
   send_logs world0 = [] \<and>
   send_logs (snd (main (env0\<lparr>insert_error := (\<lambda>k. Some ''database is locked'')\<rparr>) world0)) = []"
proof -
  let ?e = "env0\<lparr>insert_error := (\<lambda>k. Some ''database is locked'')\<rparr>"
  have c: "candidates ?e world0 = [ali, omar]"
    using candidates_env0 by (simp add: candidates_def select_customers_def env0_def)
  have "connect_error ?e = None" "select_error ?e = None" by (simp_all add: env0_def)
  from main_store [OF this, of world0] show ?thesis
    using c by (auto simp add: world0_def)
qed




text \<open>
  C8, as amended. For a candidate with phone\_number "" and country\_code absent the loop body
  makes no gateway call and, when the insert succeeds, appends a row whose status is
  "skipped" and whose message is "No phone number available" (after the rows that an
  earlier failed commit has left in the open transaction, if any).
\<close>

theorem C8_empty_phone_row:
  assumes "phone_number c = Some []" and "country_code c = None"
    and "insert_error e (insert_attempts w) = None"
  shows "\<exists>w'. process_customer e l c (n, w) = Inr (n\<lparr>skipped_count := skipped_count n + 1\<rparr>, w') \<and>
       http_posts w' = http_posts w \<and>
       pending w' = [] \<and>
       send_logs w' = send_logs w @ pending w @
         [\<lparr>log_customer_name = customer_name c, log_phone = [],
           log_message = ''No phone number available'', log_status = ''skipped'',
           log_sent_at = sql_datetime_now e (insert_attempts w)\<rparr>]"
proof -
  have "full_phone_of c = []" using assms(1,2) by (simp add: full_phone_empty)
  then show ?thesis using assms(3) by (simp add: pc_skip log_send_attempt_ok)
qed

theorem C8_empty_phone_row_witness:
  "phone_number omar = Some [] \<and> country_code omar = None \<and>
   insert_error env0 (insert_attempts world0) = None \<and>
   (\<exists>w'. process_customer env0 omar omar (\<lparr>sent_count = 0, failed_count = 0, skipped_count = 0\<rparr>, world0)
           = Inr (\<lparr>sent_count = 0, failed_count = 0, skipped_count = 1\<rparr>, w') \<and>
         http_posts w' = [] \<and> pending w' = [] \<and>
         send_logs w' = [\<lparr>log_customer_name = ''Omar'', log_phone = [],
           log_message = ''No phone number available'', log_status = ''skipped'',
           log_sent_at = ''2026-11-03 20:30:00''\<rparr>])"
proof -
  have h: "phone_number omar = Some []" "country_code omar = None"
    "insert_error env0 (insert_attempts world0) = None"
    by (simp_all add: omar_def env0_def)
  from C8_empty_phone_row [OF h, of omar "\<lparr>sent_count = 0, failed_count = 0, skipped_count = 0\<rparr>"]
  show ?thesis using h by (simp add: world0_def env0_def omar_def)
qed

text \<open>
  C8 as stated fails: the status of the row is "skipped"; "No phone number available" is
  its message.
\<close>

theorem C8_counterexample:
  "phone_number omar = Some [] \<and> country_code omar = None \<and>
   candidates (env0\<lparr>customers_table := [omar]\<rparr>) world0 = [omar] \<and>
   http_posts (snd (main (env0\<lparr>customers_table := [omar]\<rparr>) world0)) = [] \<and>
   map log_status (send_logs (snd (main (env0\<lparr>customers_table := [omar]\<rparr>) world0))) = [''skipped''] \<and>
   ''skipped'' \<noteq> ''No phone number available''"
  by (simp add: main_def Let_def split_beta get_db_connection_def candidates_def select_customers_def
      str_date_2026_11_04 env0_def world0_def omar_def UAE_TZ_def pc_skip full_phone_of_def
      or_empty_def log_send_attempt_ok)

text \<open>
  C9, as amended. For every non-skipped candidate the loop body posts one request whose
  chatId is the concatenation of the whitespace-trimmed country\_code and the
  whitespace-trimmed phone\_number (each defaulting to empty), with every "+", space and
  hyphen removed, followed by "@c.us". When the only whitespace in the two fields is the
  ordinary space, this is the concatenation of the fields as they are, with "+", spaces
  and hyphens removed, followed by "@c.us". For country\_code "971" and phone "501234567"
  the digits are "971501234567". The requests of a whole run are these, one per
  non-skipped candidate, in order.
\<close>

theorem C9_destination:
  "(full_phone_of c \<noteq> [] \<longrightarrow>
      (\<exists>n' w' req. process_customer e l c (n, w) = Inr (n', w') \<and>
         http_posts w' = http_posts w @ [req] \<and>
         chatId (json req) =
           filter (\<lambda>ch. ch \<noteq> CHR ''+'' \<and> ch \<noteq> CHR '' '' \<and> ch \<noteq> CHR ''-'')
             (py_strip (or_empty (country_code c)) @ py_strip (or_empty (phone_number c)))
           @ ''@c.us'')) \<and>
   ((\<forall>ch \<in> set (or_empty (country_code c)) \<union> set (or_empty (phone_number c)).
        py_isspace ch \<longrightarrow> ch = CHR '' '') \<longrightarrow>
      chat_id_of (full_phone_of c) =
        filter (\<lambda>ch. ch \<noteq> CHR ''+'' \<and> ch \<noteq> CHR '' '' \<and> ch \<noteq> CHR ''-'')
          (or_empty (country_code c) @ or_empty (phone_number c)) @ ''@c.us'') \<and>
   (country_code c = Some ''971'' \<and> phone_number c = Some ''501234567'' \<longrightarrow>
      full_phone_of c = ''971501234567'' \<and> chat_id_of (full_phone_of c) = ''971501234567@c.us'') \<and>
   (connect_error e = None \<and> select_error e = None \<longrightarrow>
      (\<exists>reqs. http_posts (snd (main e w)) = http_posts w @ reqs \<and>
         map (chatId \<circ> json) reqs =
           map (\<lambda>c. filter (\<lambda>ch. ch \<noteq> CHR ''+'' \<and> ch \<noteq> CHR '' '' \<and> ch \<noteq> CHR ''-'')
                      (py_strip (or_empty (country_code c)) @ py_strip (or_empty (phone_number c)))
                    @ ''@c.us'')
             (filter (\<lambda>c. full_phone_of c \<noteq> []) (candidates e w))))"
proof (intro conjI impI)
  assume fp: "full_phone_of c \<noteq> []"
  obtain n' w' where p: "process_customer e l c (n, w) = Inr (n', w')" using pc_total by blast
  from pc_posts [OF p] fp obtain reqs where r: "http_posts w' = http_posts w @ reqs"
    "map (chatId \<circ> json) reqs = [chat_id_of (full_phone_of c)]" by auto
  from r(2) obtain req where "reqs = [req]" "chatId (json req) = chat_id_of (full_phone_of c)"
    by auto
  with p r(1) show "\<exists>n' w' req. process_customer e l c (n, w) = Inr (n', w') \<and>
         http_posts w' = http_posts w @ [req] \<and>
         chatId (json req) =
           filter (\<lambda>ch. ch \<noteq> CHR ''+'' \<and> ch \<noteq> CHR '' '' \<and> ch \<noteq> CHR ''-'')
             (py_strip (or_empty (country_code c)) @ py_strip (or_empty (phone_number c)))
           @ ''@c.us''"
    by (auto simp add: chat_id_of_filter full_phone_of_eq)
next
  assume "\<forall>ch \<in> set (or_empty (country_code c)) \<union> set (or_empty (phone_number c)).
        py_isspace ch \<longrightarrow> ch = CHR '' ''"
  then have "\<And>ch. ch \<in> set (or_empty (country_code c)) \<Longrightarrow> py_isspace ch \<Longrightarrow> ch = CHR '' ''"
    "\<And>ch. ch \<in> set (or_empty (phone_number c)) \<Longrightarrow> py_isspace ch \<Longrightarrow> ch = CHR '' ''"
    by blast+
  then show "chat_id_of (full_phone_of c) =
        filter (\<lambda>ch. ch \<noteq> CHR ''+'' \<and> ch \<noteq> CHR '' '' \<and> ch \<noteq> CHR ''-'')
          (or_empty (country_code c) @ or_empty (phone_number c)) @ ''@c.us''"
    by (simp add: chat_id_of_filter full_phone_of_eq filter_py_strip_space)
next
  assume a: "country_code c = Some ''971'' \<and> phone_number c = Some ''501234567''"
  then show fp: "full_phone_of c = ''971501234567''"
    by (simp add: full_phone_of_def or_empty_def py_strip_def py_isspace_def)
  then show "chat_id_of (full_phone_of c) = ''971501234567@c.us''"
    by (simp add: chat_id_of_filter)
next
  assume ok: "connect_error e = None \<and> select_error e = None"
  then have "connect_error e = None" "select_error e = None" by simp_all
  from main_posts [OF this, of w]
  show "\<exists>reqs. http_posts (snd (main e w)) = http_posts w @ reqs \<and>
         map (chatId \<circ> json) reqs =
           map (\<lambda>c. filter (\<lambda>ch. ch \<noteq> CHR ''+'' \<and> ch \<noteq> CHR '' '' \<and> ch \<noteq> CHR ''-'')
                      (py_strip (or_empty (country_code c)) @ py_strip (or_empty (phone_number c)))
                    @ ''@c.us'')
             (filter (\<lambda>c. full_phone_of c \<noteq> []) (candidates e w))"
    by (simp add: chat_id_of_filter full_phone_of_eq comp_def)
qed

theorem C9_destination_witness:
  "full_phone_of ali \<noteq> [] \<and>
   filter py_isspace (or_empty (country_code ali) @ or_empty (phone_number ali)) = [] \<and>
   country_code ali = Some ''971'' \<and> phone_number ali = Some ''501234567'' \<and>
   connect_error env0 = None \<and> select_error env0 = None \<and>
   chat_id_of (full_phone_of ali) = ''971501234567@c.us'' \<and>
   map (chatId \<circ> json) (http_posts (snd (main env0 world0))) = [''971501234567@c.us''] \<and>
   (\<exists>n' w' req. process_customer env0 omar ali (\<lparr>sent_count = 0, failed_count = 0, skipped_count = 0\<rparr>, world0)
         = Inr (n', w') \<and> http_posts w' = [req] \<and> chatId (json req) = ''971501234567@c.us'')"
proof -
  let ?n0 = "\<lparr>sent_count = 0, failed_count = 0, skipped_count = 0\<rparr>"
  let ?f = "filter (\<lambda>ch. ch \<noteq> CHR ''+'' \<and> ch \<noteq> CHR '' '' \<and> ch \<noteq> CHR ''-'')"
  have h1: "full_phone_of ali \<noteq> []" by (simp add: full_phone_ali)
  have h2': "filter py_isspace (or_empty (country_code ali) @ or_empty (phone_number ali)) = []"
    by (simp add: ali_def or_empty_def py_isspace_def)
  have h2: "\<forall>ch \<in> set (or_empty (country_code ali)) \<union> set (or_empty (phone_number ali)).
        py_isspace ch \<longrightarrow> ch = CHR '' ''"
    by (simp add: ali_def or_empty_def py_isspace_def)
  have h3: "country_code ali = Some ''971'' \<and> phone_number ali = Some ''501234567''"
    by (simp add: ali_def)
  have h4: "connect_error env0 = None \<and> select_error env0 = None" by (simp add: env0_def)
  have v: "?f (py_strip (or_empty (country_code c)) @ py_strip (or_empty (phone_number c))) @ ''@c.us''
      = chat_id_of (full_phone_of c)" for c
    by (simp add: chat_id_of_filter full_phone_of_eq)
  note t = C9_destination [of ali env0 omar ?n0 world0, unfolded v]
  from t h3 have b: "chat_id_of (full_phone_of ali) = ''971501234567@c.us''" by blast
  from t h1 b have a: "\<exists>n' w' req. process_customer env0 omar ali (?n0, world0) = Inr (n', w')
      \<and> http_posts w' = [req] \<and> chatId (json req) = ''971501234567@c.us''"
    by (simp add: world0_def)
  from t h4 obtain reqs where "http_posts (snd (main env0 world0)) = http_posts world0 @ reqs"
    "map (chatId \<circ> json) reqs
     = map (\<lambda>c. chat_id_of (full_phone_of c)) (filter (\<lambda>c. full_phone_of c \<noteq> []) (candidates env0 world0))"
    by blast
  then have c: "map (chatId \<circ> json) (http_posts (snd (main env0 world0))) = [''971501234567@c.us'']"
    using b h1 unfolding candidates_env0 by (simp add: full_phone_omar world0_def)
  from h1 h2' h3 h4 a b c show ?thesis by (intro conjI) simp_all
qed

text \<open>
  C9 as stated fails: \<open>main\<close> trims each field with \<open>strip()\<close> first, so a leading tab of the
  country code is not part of the destination, while the concatenation of the two fields
  with only "+", spaces and hyphens removed keeps it.
\<close>

theorem C9_counterexample:
  "candidates (env0\<lparr>customers_table := [hana]\<rparr>) world0 = [hana] \<and>
   map (chatId \<circ> json) (http_posts (snd (main (env0\<lparr>customers_table := [hana]\<rparr>) world0)))
     = [''971501234567@c.us''] \<and>
   filter (\<lambda>ch. ch \<noteq> CHR ''+'' \<and> ch \<noteq> CHR '' '' \<and> ch \<noteq> CHR ''-'')
     (or_empty (country_code hana) @ or_empty (phone_number hana)) @ ''@c.us''
     = CHR 0x09 # ''971501234567@c.us''"
proof -
  let ?e = "env0\<lparr>customers_table := [hana]\<rparr>"
  have c: "candidates ?e world0 = [hana]"
    by (simp add: candidates_def select_customers_def env0_def world0_def hana_def
        str_date_2026_11_04)
  have "connect_error ?e = None" "select_error ?e = None" by (simp_all add: env0_def)
  from main_posts [OF this, of world0] c
  have "map (chatId \<circ> json) (http_posts (snd (main ?e world0))) = [''971501234567@c.us'']"
    by (auto simp add: world0_def full_phone_hana chat_id_of_filter)
  moreover have "filter (\<lambda>ch. ch \<noteq> CHR ''+'' \<and> ch \<noteq> CHR '' '' \<and> ch \<noteq> CHR ''-'')
     (or_empty (country_code hana) @ or_empty (phone_number hana)) @ ''@c.us''
     = CHR 0x09 # ''971501234567@c.us''"
    by (simp add: hana_def or_empty_def)
  ultimately show ?thesis using c by simp
qed

text \<open>
  C5, as amended. The rows that a run appends are matched, in order, with the candidates
  whose row reaches the table, each taken with the index \<open>t\<close> of the clock reading made in its
  turn. The row has the name of its own candidate. For a non-skipped candidate its message
  is the fixed template with the four placeholders replaced by the name, the visa type and
  the stored expiry date of that candidate and by the date string of reading \<open>t\<close> of the
  clock in the zone \<open>UAE_TZ\<close>; for a skipped candidate it is "No phone number available".
  When no field of a candidate contains an opening brace, no logged message contains one:
  no placeholder is left.
\<close>

theorem C5_logged_message:
  assumes "connect_error e = None" and "select_error e = None"
  shows "\<exists>rows. send_logs (snd (main e w)) = send_logs w @ rows \<and>
     list_all2
       (\<lambda>r (k, t, c).
          log_customer_name r = customer_name c \<and>
          (if full_phone_of c = [] then
             log_status r = ''skipped'' \<and> log_message r = ''No phone number available''
           else
             log_status r \<noteq> ''skipped'' \<and>
             format_message (customer_name c) (visa_type c) (visa_expiry_date c)
               (strftime_Ymd (datetime_now e UAE_TZ t)) = Inr (log_message r) \<and>
             log_message r =
               ''Dear '' @ customer_name c @ '', your '' @ visa_type c
               @ '' visa would be expired on '' @ visa_expiry_date c
               @ '', kindly renew it. Today'' @ [CHR 0x27] @ ''s date: ''
               @ strftime_Ymd (datetime_now e UAE_TZ t)))
       rows
       (filter (\<lambda>(k, t, c). (insert_error e k = None \<or> stays_pending e k) \<and>
                  (\<exists>j \<in> {k..<insert_attempts w + length (candidates e w)}.
                      insert_error e j = None))
          (enumerate (insert_attempts w)
             (clock_readings (Suc (clock_reads w)) (candidates e w)))) \<and>
     ((\<forall>c \<in> set (candidates e w).
          CHR ''{'' \<notin> set (customer_name c) \<union> set (visa_type c) \<union> set (visa_expiry_date c)) \<longrightarrow>
        (\<forall>r \<in> set rows. CHR ''{'' \<notin> set (log_message r)))"
proof -
  let ?F = "filter (\<lambda>ktc. (insert_error e (fst ktc) = None \<or> stays_pending e (fst ktc)) \<and>
                  (\<exists>j \<in> {fst ktc..<insert_attempts w + length (candidates e w)}.
                      insert_error e j = None))
          (enumerate (insert_attempts w)
             (clock_readings (Suc (clock_reads w)) (candidates e w)))"
  let ?Q = "\<lambda>r (k :: nat, t, c).
          log_customer_name r = customer_name c \<and>
          (if full_phone_of c = [] then
             log_status r = ''skipped'' \<and> log_message r = ''No phone number available''
           else
             log_status r \<noteq> ''skipped'' \<and>
             format_message (customer_name c) (visa_type c) (visa_expiry_date c)
               (strftime_Ymd (datetime_now e UAE_TZ t)) = Inr (log_message r) \<and>
             log_message r =
               ''Dear '' @ customer_name c @ '', your '' @ visa_type c
               @ '' visa would be expired on '' @ visa_expiry_date c
               @ '', kindly renew it. Today'' @ [CHR 0x27] @ ''s date: ''
               @ strftime_Ymd (datetime_now e UAE_TZ t))"
  from main_store [OF assms, of w] obtain rows where
    a: "send_logs (snd (main e w)) = send_logs w @ rows" and
    b: "list_all2 (\<lambda>r ktc. row_for e (snd (snd ktc)) (fst (snd ktc)) r) rows ?F"
    by blast
  have q: "?Q r ktc" if "row_for e (snd (snd ktc)) (fst (snd ktc)) r" for r ktc
    using that by (cases ktc) (auto simp add: row_for_def format_message_eq)
  from b have l: "list_all2 ?Q rows ?F"
    by (rule list_all2_mono) (rule q)
  have d: "CHR ''{'' \<notin> set (log_message r)"
    if nb: "\<forall>c \<in> set (candidates e w).
          CHR ''{'' \<notin> set (customer_name c) \<union> set (visa_type c) \<union> set (visa_expiry_date c)"
      and r: "r \<in> set rows" for r
  proof -
    from list_all2_in_set [OF l r] obtain ktc where k: "ktc \<in> set ?F" and qq: "?Q r ktc"
      by blast
    obtain k0 t c where ktc: "ktc = (k0, t, c)" by (cases ktc) auto
    from k have "ktc \<in> set (enumerate (insert_attempts w)
             (clock_readings (Suc (clock_reads w)) (candidates e w)))" by simp
    then have "snd (snd ktc) \<in> set (candidates e w)" by (rule in_enumerate_clock_readings)
    then have c: "c \<in> set (candidates e w)" by (simp add: ktc)
    from nb c have nbc: "CHR ''{'' \<notin> set (customer_name c)" "CHR ''{'' \<notin> set (visa_type c)"
        "CHR ''{'' \<notin> set (visa_expiry_date c)" by auto
    show ?thesis
    proof (cases "full_phone_of c = []")
      case True
      with qq have "log_message r = ''No phone number available''" by (simp add: ktc)
      then show ?thesis by simp
    next
      case False
      with qq have "log_message r =
               ''Dear '' @ customer_name c @ '', your '' @ visa_type c
               @ '' visa would be expired on '' @ visa_expiry_date c
               @ '', kindly renew it. Today'' @ [CHR 0x27] @ ''s date: ''
               @ strftime_Ymd (datetime_now e UAE_TZ t)" by (simp add: ktc)
      then show ?thesis using nbc strftime_no_brace [of "datetime_now e UAE_TZ t"] by simp
    qed
  qed
  have d': "(\<forall>c \<in> set (candidates e w).
          CHR ''{'' \<notin> set (customer_name c) \<union> set (visa_type c) \<union> set (visa_expiry_date c)) \<longrightarrow>
        (\<forall>r \<in> set rows. CHR ''{'' \<notin> set (log_message r))"
    by (intro impI ballI, rule d, assumption+)
  show ?thesis
    unfolding written_split
    by (rule exI [of _ rows]) (intro conjI a l d')
qed


theorem C5_logged_message_witness:
  "connect_error env0 = None \<and> select_error env0 = None \<and>
   list_all (\<lambda>c. CHR ''{'' \<notin> set (customer_name c) \<union> set (visa_type c) \<union> set (visa_expiry_date c))
     (candidates env0 world0) \<and>
   list_all (\<lambda>r. CHR ''{'' \<notin> set (log_message r)) (send_logs (snd (main env0 world0))) \<and>
   map log_message (send_logs (snd (main env0 world0)))
     = [''Dear Ali, your Employment visa would be expired on 2026-11-04, kindly renew it. Today''
          @ [CHR 0x27] @ ''s date: 2026-11-04'',
        ''No phone number available'']"
proof -
  have h: "connect_error env0 = None" "select_error env0 = None" by (simp_all add: env0_def)
  have nb: "\<forall>c \<in> set (candidates env0 world0).
          CHR ''{'' \<notin> set (customer_name c) \<union> set (visa_type c) \<union> set (visa_expiry_date c)"
    unfolding candidates_env0 by (simp add: ali_def omar_def)
  from C5_logged_message [OF h, of world0] nb obtain rows where
    a: "send_logs (snd (main env0 world0)) = send_logs world0 @ rows" and
    c: "\<forall>r \<in> set rows. CHR ''{'' \<notin> set (log_message r)"
    by blast
  from a have rows: "send_logs (snd (main env0 world0)) = rows" by (simp add: world0_def)
  from c have "list_all (\<lambda>r. CHR ''{'' \<notin> set (log_message r)) (send_logs (snd (main env0 world0)))"
    unfolding rows by (simp add: list_all_iff)
  moreover from nb have "list_all (\<lambda>c. CHR ''{'' \<notin> set (customer_name c) \<union> set (visa_type c) \<union> set (visa_expiry_date c))
     (candidates env0 world0)"
    by (simp add: list_all_iff)
  ultimately show ?thesis using h main_env0_messages by (intro conjI)
qed

text \<open>
  C5 as stated fails: the row written for a skipped candidate carries the text
  "No phone number available" in its message field, not the rendered template.
\<close>

theorem C5_counterexample:
  "candidates (env0\<lparr>customers_table := [omar]\<rparr>) world0 = [omar] \<and>
   map log_message (send_logs (snd (main (env0\<lparr>customers_table := [omar]\<rparr>) world0)))
     = [''No phone number available''] \<and>
   format_message (customer_name omar) (visa_type omar) (visa_expiry_date omar)
     (strftime_Ymd (datetime_now (env0\<lparr>customers_table := [omar]\<rparr>) UAE_TZ 0))
     \<noteq> Inr ''No phone number available''"
  by (simp add: main_def Let_def split_beta get_db_connection_def candidates_def select_customers_def
      str_date_2026_11_04 env0_def world0_def omar_def UAE_TZ_def pc_skip full_phone_of_def
      or_empty_def log_send_attempt_ok format_message_eq)








end
